theory Spec2Isabelle
  imports Complex_Main "HOL-Library.AList"
begin

section \<open>The k-means notebook (k-means-101/K-means-Clustering.ipynb)\<close>

text \<open>
  The notebook keeps a data set as one list per dimension (\<open>x[d][idx]\<close> is coordinate
  \<open>d\<close> of point \<open>idx\<close>), so the number of points is \<open>len(x[0])\<close>. A single point or
  centroid is a list with one one-element list per dimension. Cluster labels are the
  colour names of \<open>co\<close>; the assignment loop starts from Python's \<open>None\<close>, so a label is
  a \<open>string option\<close>. \<open>sys.maxsize\<close> is the value of a 64-bit CPython.

  Numbers are reals and the arithmetic is exact: the rounding of Python's floats, their
  overflow to \<open>inf\<close> and the OverflowError of \<open>**\<close> are outside the model. The theorems
  below are therefore about what does not depend on them: the control flow, the
  labels, the exceptions of indexing, typing and division by zero, and runs on small
  numbers. In such a run a cost that is no float (the \<open>2 / 3\<close> of the run that loses a
  cluster) stands for its rounded value; in the runs with distances beyond
  \<open>sys.maxsize\<close> the cost is bounded and not given.

  Python exceptions are values of \<open>error\<close>; a function that can raise returns
  \<open>error + 'a\<close> with \<open>Inl\<close> for the exception.
\<close>

datatype error = IndexError | ZeroDivisionError | TypeError | UnboundLocalError

type_synonym dataset = "real list list"
type_synonym vec = "real list list"
type_synonym label = "string option"
type_synonym centroids = "(label \<times> vec) list"
type_synonym scores = "(label \<times> real) list"

definition maxsize :: real where
  "maxsize = 2 ^ 63 - 1"

definition co :: "string list" where
  "co = [''red'', ''orange'', ''yellow'', ''green'', ''purple'', ''blue'', ''black'', ''brown'']"

text \<open>A list comprehension whose element expression can raise: the first exception wins.\<close>

fun map_err :: "('a \<Rightarrow> error + 'b) \<Rightarrow> 'a list \<Rightarrow> error + 'b list" where
  "map_err f [] = Inr []"
| "map_err f (a # as) =
     (case f a of Inl e \<Rightarrow> Inl e
      | Inr b \<Rightarrow> (case map_err f as of Inl e \<Rightarrow> Inl e | Inr bs \<Rightarrow> Inr (b # bs)))"

subsection \<open>Random initial membership\<close>

text \<open>
  \<open>random.choice(range(n))\<close> raises IndexError on an empty range and otherwise returns
  one of \<open>0 .. n-1\<close>; which one is decided by the random source, here the raw draw \<open>r\<close>.
\<close>

definition random_choice_range :: "nat \<Rightarrow> int \<Rightarrow> error + nat" where
  "random_choice_range r n = (if n \<le> 0 then Inl IndexError else Inr (r mod nat n))"

definition co_at :: "nat \<Rightarrow> error + string" where
  "co_at i = (if i < length co then Inr (co ! i) else Inl IndexError)"

definition guess_label :: "(nat \<Rightarrow> nat) \<Rightarrow> int \<Rightarrow> nat \<Rightarrow> error + label" where
  "guess_label rnd n_clusters i =
     (case random_choice_range (rnd i) n_clusters of Inl e \<Rightarrow> Inl e
      | Inr j \<Rightarrow> (case co_at j of Inl e \<Rightarrow> Inl e | Inr s \<Rightarrow> Inr (Some s)))"

text \<open>
  \<open>guess_clusters\<close> returns from inside its \<open>for\<close> loop, so on a data set without points
  the loop body never runs and the function returns Python's \<open>None\<close> (the inner
  \<open>None\<close> of the result). \<open>rnd i\<close> is the raw random draw used for point \<open>i\<close>.
\<close>

definition guess_clusters :: "(nat \<Rightarrow> nat) \<Rightarrow> dataset \<Rightarrow> int \<Rightarrow> error + label list option" where
  "guess_clusters rnd x n_clusters =
     (case x of [] \<Rightarrow> Inl IndexError
      | x0 # _ \<Rightarrow>
          if length x0 = 0 then Inr None
          else (case map_err (guess_label rnd n_clusters) [0..<length x0] of
                  Inl e \<Rightarrow> Inl e
                | Inr m \<Rightarrow> Inr (Some m)))"

subsection \<open>Centroid calculator\<close>

text \<open>
  The division is by \<open>len(x[0])\<close> for every column and raises ZeroDivisionError where
  that is zero; with no column there is nothing to divide. Sum and quotient are those
  of the reals.
\<close>

definition centroid :: "dataset \<Rightarrow> error + vec" where
  "centroid x =
     (case x of [] \<Rightarrow> Inr []
      | x0 # _ \<Rightarrow>
          if length x0 = 0 then Inl ZeroDivisionError
          else Inr (map (\<lambda>col. [sum_list col / real (length x0)]) x))"

definition select_members :: "dataset \<Rightarrow> label list \<Rightarrow> label \<Rightarrow> dataset" where
  "select_members x membership cluster =
     map (\<lambda>dim. map fst (filter (\<lambda>(i, label). label = cluster) (zip dim membership))) x"

text \<open>
  \<open>set_iter m\<close> is the order in which Python iterates over \<open>set(m)\<close>; the language
  fixes only that every element of \<open>m\<close> comes once (\<open>set_iter_ok\<close>).
\<close>

definition set_iter_ok :: "(label list \<Rightarrow> label list) \<Rightarrow> bool" where
  "set_iter_ok set_iter = (\<forall>m. distinct (set_iter m) \<and> set (set_iter m) = set m)"

definition get_centroids :: "(label list \<Rightarrow> label list) \<Rightarrow> dataset \<Rightarrow> label list \<Rightarrow> error + centroids" where
  "get_centroids set_iter x membership =
     map_err (\<lambda>i. case centroid (select_members x membership i) of
                     Inl e \<Rightarrow> Inl e
                   | Inr c \<Rightarrow> Inr (i, c))
             (set_iter membership)"

subsection \<open>Distance function\<close>

text \<open>
  \<open>zip\<close> stops at the shorter vector; \<open>i[0]\<close> raises IndexError on an empty entry. The
  squares, their sum and the root are those of the reals.
\<close>

definition distance :: "vec \<Rightarrow> vec \<Rightarrow> error + real" where
  "distance p1 p2 =
     (if list_all (\<lambda>(i, j). i \<noteq> [] \<and> j \<noteq> []) (zip p1 p2)
      then Inr (sqrt (sum_list (map (\<lambda>(i, j). (hd i - hd j) ^ 2) (zip p1 p2))))
      else Inl IndexError)"

subsection \<open>Assignment engine\<close>

text \<open>The point \<open>[[t[idx]] for t in x]\<close>.\<close>

definition point_at :: "dataset \<Rightarrow> nat \<Rightarrow> error + vec" where
  "point_at x idx =
     (if list_all (\<lambda>t. idx < length t) x then Inr (map (\<lambda>t. [t ! idx]) x)
      else Inl IndexError)"

text \<open>The inner loop over \<open>centroids.items()\<close>, with the loop variables \<open>(min_d, cluster)\<close>.\<close>

fun nearest :: "dataset \<Rightarrow> nat \<Rightarrow> centroids \<Rightarrow> real \<times> label \<Rightarrow> error + real \<times> label" where
  "nearest x idx [] (min_d, cluster) = Inr (min_d, cluster)"
| "nearest x idx ((c, vc) # rest) (min_d, cluster) =
     (case point_at x idx of Inl e \<Rightarrow> Inl e
      | Inr p \<Rightarrow>
          (case distance vc p of Inl e \<Rightarrow> Inl e
           | Inr dst \<Rightarrow>
               if dst < min_d then nearest x idx rest (dst, c)
               else nearest x idx rest (min_d, cluster)))"

text \<open>\<open>scores[cluster] = min_d + scores.get(cluster, 0)\<close> on an insertion-ordered dict.\<close>

definition scores_add :: "label \<Rightarrow> real \<Rightarrow> scores \<Rightarrow> scores" where
  "scores_add cluster min_d scores =
     AList.update cluster
       (min_d + (case map_of scores cluster of None \<Rightarrow> 0 | Some v \<Rightarrow> v)) scores"

text \<open>The outer loop over the point indices, with the state \<open>(membership, scores)\<close>.\<close>

fun reassign_loop :: "dataset \<Rightarrow> centroids \<Rightarrow> nat list \<Rightarrow> label list \<times> scores \<Rightarrow> error + label list \<times> scores" where
  "reassign_loop x cs [] (membership, scores) = Inr (membership, scores)"
| "reassign_loop x cs (idx # idxs) (membership, scores) =
     (case nearest x idx cs (maxsize, None) of Inl e \<Rightarrow> Inl e
      | Inr (min_d, cluster) \<Rightarrow>
          reassign_loop x cs idxs (membership @ [cluster], scores_add cluster min_d scores))"

definition reassign :: "dataset \<Rightarrow> centroids \<Rightarrow> error + label list \<times> real" where
  "reassign x cs =
     (case x of [] \<Rightarrow> Inl IndexError
      | x0 # _ \<Rightarrow>
          (case reassign_loop x cs [0..<length x0] ([], []) of Inl e \<Rightarrow> Inl e
           | Inr (membership, scores) \<Rightarrow>
               if length x0 = 0 then Inl ZeroDivisionError
               else Inr (membership, sum_list (map snd scores) / real (length x0))))"

subsection \<open>Lloyd iteration\<close>

text \<open>
  The loop variables of \<open>k_means\<close> are \<open>(last_score, score, membership, c)\<close>.
  \<open>membership\<close> may be Python's \<open>None\<close> (from \<open>guess_clusters\<close>), on which
  \<open>set(membership)\<close> raises TypeError; \<open>c\<close> is unbound until the first pass.
\<close>

type_synonym loop_state = "real \<times> real \<times> label list option \<times> centroids option"
type_synonym run_result = "label list option \<times> centroids \<times> real"

definition converged :: "loop_state \<Rightarrow> bool" where
  "converged st = (case st of (last_score, score, membership, c) \<Rightarrow>
     \<not> \<bar>last_score - score\<bar> > 1 / 10 ^ 7)"

text \<open>One execution of the loop body.\<close>

definition pass :: "(label list \<Rightarrow> label list) \<Rightarrow> dataset \<Rightarrow> loop_state \<Rightarrow> error + loop_state" where
  "pass set_iter data st = (case st of (last_score, score, membership, c) \<Rightarrow>
     (case membership of None \<Rightarrow> Inl TypeError
      | Some m \<Rightarrow>
          (case get_centroids set_iter data m of Inl e \<Rightarrow> Inl e
           | Inr c' \<Rightarrow>
               (case reassign data c' of Inl e \<Rightarrow> Inl e
                | Inr (membership', score') \<Rightarrow> Inr (score, score', Some membership', Some c')))))"

text \<open>\<open>return membership, c, score\<close>.\<close>

definition result_of :: "loop_state \<Rightarrow> error + run_result" where
  "result_of st = (case st of (last_score, score, membership, c) \<Rightarrow>
     (case c of None \<Rightarrow> Inl UnboundLocalError | Some c' \<Rightarrow> Inr (membership, c', score)))"

text \<open>
  The \<open>while\<close> loop has no iteration bound, so the model takes fuel: the number of passes
  it may make. \<open>None\<close> means that the loop is still running when the fuel is used up.
\<close>

fun k_means_loop :: "nat \<Rightarrow> (label list \<Rightarrow> label list) \<Rightarrow> dataset \<Rightarrow> loop_state \<Rightarrow> (error + run_result) option" where
  "k_means_loop fuel set_iter data st =
     (if \<not> converged st then
        (case fuel of 0 \<Rightarrow> None
         | Suc f \<Rightarrow>
             (case pass set_iter data st of Inl e \<Rightarrow> Some (Inl e)
              | Inr st' \<Rightarrow> k_means_loop f set_iter data st'))
      else Some (result_of st))"

definition k_means :: "nat \<Rightarrow> (label list \<Rightarrow> label list) \<Rightarrow> (nat \<Rightarrow> nat) \<Rightarrow> dataset \<Rightarrow> int \<Rightarrow> (error + run_result) option" where
  "k_means fuel set_iter rnd data k =
     (case guess_clusters rnd data k of Inl e \<Rightarrow> Some (Inl e)
      | Inr membership \<Rightarrow> k_means_loop fuel set_iter data (maxsize, 0, membership, None))"

text \<open>
  Python does not fix the type of \<open>k\<close>. \<open>k_means\<close> above is the function on the ints;
  \<open>k_means_dyn\<close> takes any Python value, of which it matters only whether it is an int
  (\<open>range\<close> accepts it) or not (\<open>range\<close> raises TypeError).
\<close>

datatype py_k = IntK int | NonIntK

definition guess_label_dyn :: "(nat \<Rightarrow> nat) \<Rightarrow> py_k \<Rightarrow> nat \<Rightarrow> error + label" where
  "guess_label_dyn rnd n_clusters i =
     (case n_clusters of IntK n \<Rightarrow> guess_label rnd n i | NonIntK \<Rightarrow> Inl TypeError)"

definition guess_clusters_dyn :: "(nat \<Rightarrow> nat) \<Rightarrow> dataset \<Rightarrow> py_k \<Rightarrow> error + label list option" where
  "guess_clusters_dyn rnd x n_clusters =
     (case x of [] \<Rightarrow> Inl IndexError
      | x0 # _ \<Rightarrow>
          if length x0 = 0 then Inr None
          else (case map_err (guess_label_dyn rnd n_clusters) [0..<length x0] of
                  Inl e \<Rightarrow> Inl e
                | Inr m \<Rightarrow> Inr (Some m)))"

definition k_means_dyn :: "nat \<Rightarrow> (label list \<Rightarrow> label list) \<Rightarrow> (nat \<Rightarrow> nat) \<Rightarrow> dataset \<Rightarrow> py_k \<Rightarrow> (error + run_result) option" where
  "k_means_dyn fuel set_iter rnd data k =
     (case guess_clusters_dyn rnd data k of Inl e \<Rightarrow> Some (Inl e)
      | Inr membership \<Rightarrow> k_means_loop fuel set_iter data (maxsize, 0, membership, None))"




text \<open>A random source given by its first draws (and 0 afterwards).\<close>

definition draws :: "nat list \<Rightarrow> nat \<Rightarrow> nat" where
  "draws rs i = (if i < length rs then rs ! i else 0)"

subsection \<open>Notions of the specification\<close>

text \<open>
  A point set of \<open>n \<ge> 1\<close> points in \<open>d \<ge> 1\<close> dimensions, in the notebook's layout.
\<close>

definition dataset_ok :: "dataset \<Rightarrow> nat \<Rightarrow> nat \<Rightarrow> bool" where
  "dataset_ok x n d = (length x = d \<and> 0 < d \<and> 0 < n \<and> list_all (\<lambda>col. length col = n) x)"

declare k_means_loop.simps [simp del]

section \<open>Random initialisation\<close>

lemma map_err_length: "map_err f as = Inr bs \<Longrightarrow> length bs = length as"
  by (induction as arbitrary: bs) (auto split: sum.splits)

lemma map_err_error: "map_err f as = Inl e \<Longrightarrow> \<exists>a\<in>set as. f a = Inl e"
  by (induction as) (auto split: sum.splits)

lemma map_err_all:
  "\<forall>a\<in>set as. f a = Inr (g a) \<Longrightarrow> map_err f as = Inr (map g as)"
  by (induction as) auto

lemma map_err_fails:
  "a \<in> set as \<Longrightarrow> f a = Inl e0 \<Longrightarrow> \<exists>e. map_err f as = Inl e"
proof (induction as)
  case Nil
  then show ?case by simp
next
  case (Cons b as)
  show ?case
  proof (cases "f b")
    case (Inl e)
    then show ?thesis by simp
  next
    case (Inr y)
    have "a \<noteq> b" using Inr Cons.prems(2) by auto
    then have "a \<in> set as" using Cons.prems(1) by simp
    then obtain e where "map_err f as = Inl e" using Cons.IH Cons.prems(2) by blast
    then show ?thesis using Inr by simp
  qed
qed

lemma guess_label_error: "guess_label rnd k i = Inl e \<Longrightarrow> e = IndexError"
  by (auto simp: guess_label_def random_choice_range_def co_at_def split: sum.splits if_splits)

lemma guess_label_beyond:
  "9 \<le> k \<Longrightarrow> 8 \<le> rnd i mod nat k \<Longrightarrow> guess_label rnd k i = Inl IndexError"
  by (simp add: guess_label_def random_choice_range_def co_at_def co_def)

lemma guess_label_no_cluster: "k < 1 \<Longrightarrow> guess_label rnd k i = Inl IndexError"
  by (simp add: guess_label_def random_choice_range_def)

lemma guess_clusters_error: "guess_clusters rnd x k = Inl e \<Longrightarrow> e = IndexError"
  by (auto simp: guess_clusters_def split: list.splits if_splits sum.splits
      dest!: map_err_error guess_label_error)

lemma guess_clusters_some:
  "guess_clusters rnd x k = Inr (Some m) \<Longrightarrow> \<exists>x0 xs. x = x0 # xs \<and> length m = length x0 \<and> 0 < length x0"
  by (auto simp: guess_clusters_def split: list.splits if_splits sum.splits dest: map_err_length)

lemma guess_clusters_index_error:
  assumes "dataset_ok x n d" and "i < n" and "guess_label rnd k i = Inl IndexError"
  shows "guess_clusters rnd x k = Inl IndexError"
proof -
  obtain x0 xs where x: "x = x0 # xs" using assms(1) by (cases x) (auto simp: dataset_ok_def)
  have n: "length x0 = n" using assms(1) x by (simp add: dataset_ok_def)
  have "i \<in> set [0..<n]" using assms(2) by simp
  from map_err_fails [of i "[0..<n]" "guess_label rnd k", OF this assms(3)]
  obtain e where e: "map_err (guess_label rnd k) [0..<n] = Inl e" ..
  from map_err_error [OF e]
  obtain j where "guess_label rnd k j = Inl e" by blast
  then have "e = IndexError" by (rule guess_label_error)
  then have "map_err (guess_label rnd k) [0..<n] = Inl IndexError" using e by simp
  then show ?thesis using x n assms(2) by (simp add: guess_clusters_def)
qed

text \<open>
  C10. \<open>co\<close> holds eight colour names and \<open>guess_clusters\<close> indexes it with a draw from
  \<open>range(k)\<close>. For a point set of \<open>n \<ge> 1\<close> points and \<open>k \<ge> 9\<close> (so also for
  \<open>9 \<le> k \<le> n\<close>) there is a random source under which the run raises IndexError and
  returns no result, whatever the fuel; and so does every source that draws an index of
  8 or more for one of the points.
\<close>

theorem k_means_beyond_eight_labels:
  assumes "dataset_ok x n d" and "9 \<le> k"
  shows "length co = 8 \<and>
         (\<exists>rnd. \<forall>fuel set_iter. k_means fuel set_iter rnd x k = Some (Inl IndexError)) \<and>
         (\<forall>rnd fuel set_iter. list_ex (\<lambda>i. 8 \<le> rnd i mod nat k) [0..<n] \<longrightarrow>
             k_means fuel set_iter rnd x k = Some (Inl IndexError))"
proof -
  have run: "k_means fuel set_iter rnd x k = Some (Inl IndexError)"
    if ex: "list_ex (\<lambda>i. 8 \<le> rnd i mod nat k) [0..<n]" for rnd fuel set_iter
  proof -
    from ex obtain i where i: "i < n" "8 \<le> rnd i mod nat k"
      unfolding list_ex_iff by auto
    have "guess_label rnd k i = Inl IndexError"
      using assms(2) i(2) by (rule guess_label_beyond)
    then have "guess_clusters rnd x k = Inl IndexError"
      using guess_clusters_index_error [OF assms(1) i(1)] by simp
    then show ?thesis by (simp add: k_means_def)
  qed
  have n: "0 < n" using assms(1) by (simp add: dataset_ok_def)
  have "(8::nat) mod nat k = 8" using assms(2) by simp
  then have "list_ex (\<lambda>i. 8 \<le> (8::nat) mod nat k) [0..<n]"
    using n unfolding list_ex_iff by auto
  then have "\<forall>fuel set_iter. k_means fuel set_iter (\<lambda>i. 8) x k = Some (Inl IndexError)"
    using run [of "\<lambda>i. 8"] by simp
  then have some: "\<exists>rnd. \<forall>fuel set_iter. k_means fuel set_iter rnd x k = Some (Inl IndexError)"
    by (rule exI [of _ "\<lambda>i. 8"])
  have co: "length co = 8" by (simp add: co_def)
  show ?thesis by (intro conjI allI impI co some run)
qed

theorem k_means_beyond_eight_labels_witness:
  "dataset_ok [[1, 2, 3, 4, 5, 6, 7, 8, 9]] 9 1 \<and> (9::int) \<le> 9 \<and> length co = 8 \<and>
   (\<exists>rnd. \<forall>fuel set_iter.
       k_means fuel set_iter rnd [[1, 2, 3, 4, 5, 6, 7, 8, 9]] 9 = Some (Inl IndexError)) \<and>
   list_ex (\<lambda>i. 8 \<le> draws [0, 8] i mod nat 9) [0..<9] \<and>
   k_means 3 remdups (draws [0, 8]) [[1, 2, 3, 4, 5, 6, 7, 8, 9]] 9 = Some (Inl IndexError)"
proof -
  let ?x = "[[1, 2, 3, 4, 5, 6, 7, 8, 9]] :: dataset"
  have h: "dataset_ok ?x 9 1" by (simp add: dataset_ok_def)
  have "(1::nat) \<in> set [0..<9]" "8 \<le> draws [0, 8] 1 mod nat 9" by (simp_all add: draws_def)
  then have e: "list_ex (\<lambda>i. 8 \<le> draws [0, 8] i mod nat 9) [0..<9]"
    unfolding list_ex_iff by (rule bexI [rotated])
  have k: "(9::int) \<le> 9" by simp
  note t = k_means_beyond_eight_labels [OF h k]
  have t1: "length co = 8" using t by (rule conjunct1)
  have t2: "\<exists>rnd. \<forall>fuel set_iter. k_means fuel set_iter rnd ?x 9 = Some (Inl IndexError)"
    using t by (elim conjE)
  have "\<forall>rnd fuel set_iter. list_ex (\<lambda>i. 8 \<le> rnd i mod nat 9) [0..<9] \<longrightarrow>
             k_means fuel set_iter rnd ?x 9 = Some (Inl IndexError)"
    using t by (elim conjE)
  then have t3: "k_means 3 remdups (draws [0, 8]) ?x 9 = Some (Inl IndexError)"
    using e by (elim allE impE)
  show ?thesis by (intro conjI h k t1 t2 e t3)
qed

section \<open>The Lloyd loop\<close>

lemma k_means_loop_step:
  "\<not> converged st \<Longrightarrow> k_means_loop (Suc f) set_iter data st =
     (case pass set_iter data st of Inl e \<Rightarrow> Some (Inl e)
      | Inr st' \<Rightarrow> k_means_loop f set_iter data st')"
  by (simp add: k_means_loop.simps)

lemma k_means_loop_stop: "converged st \<Longrightarrow> k_means_loop fuel set_iter data st = Some (result_of st)"
  by (simp add: k_means_loop.simps)

lemma k_means_loop_out_of_fuel: "\<not> converged st \<Longrightarrow> k_means_loop 0 set_iter data st = None"
  by (simp add: k_means_loop.simps)

lemma initial_state_not_converged: "\<not> converged (maxsize, 0, membership, c)"
  by (simp add: converged_def maxsize_def)

text \<open>
  C2 (as amended). \<open>k_means\<close> starts with the last cost at \<open>sys.maxsize\<close> and the
  current cost at \<open>0.0\<close>. The first convergence test therefore fails, and a run whose
  initialisation succeeds always makes a first pass before it can return.
\<close>

theorem k_means_first_pass_unconditional:
  "\<not> converged (maxsize, 0, membership, c) \<and>
   k_means fuel set_iter rnd data k =
     (case guess_clusters rnd data k of Inl e \<Rightarrow> Some (Inl e)
      | Inr membership \<Rightarrow>
          (case fuel of 0 \<Rightarrow> None
           | Suc f \<Rightarrow>
               (case pass set_iter data (maxsize, 0, membership, None) of
                  Inl e \<Rightarrow> Some (Inl e)
                | Inr st \<Rightarrow> k_means_loop f set_iter data st)))"
  using initial_state_not_converged
  by (simp add: k_means_def k_means_loop_step k_means_loop_out_of_fuel split: sum.splits nat.splits)

text \<open>
  C2 as stated fails: only the last cost is a large sentinel, the current cost starts
  at \<open>0.0\<close>, so a first pass whose cost is at most \<open>1e-7\<close> ends the run. One point and
  \<open>k = 1\<close>: the run returns with fuel for a single pass.
\<close>

theorem k_means_one_pass_counterexample:
  "k_means 1 remdups (draws [0]) [[1]] 1 =
     Some (Inr (Some [Some ''red''], [(Some ''red'', [[1]])], 0))"
  by (simp add: k_means_def guess_clusters_def guess_label_def random_choice_range_def co_at_def
      co_def draws_def converged_def maxsize_def pass_def get_centroids_def centroid_def
      select_members_def reassign_def point_at_def distance_def scores_add_def result_of_def
      k_means_loop.simps)

subsection \<open>The loop against the sequence of passes\<close>















lemma example_pass_1:
  "pass remdups [[0, 2, 1]] (maxsize, 0, Some [Some ''red'', Some ''red'', Some ''orange''], None) =
     Inr (0, 2 / 3, Some [Some ''red'', Some ''red'', Some ''red''],
          Some [(Some ''red'', [[1]]), (Some ''orange'', [[1]])])"
  by (simp add: pass_def get_centroids_def centroid_def select_members_def reassign_def
      point_at_def distance_def scores_add_def maxsize_def)

lemma example_pass_2:
  "pass remdups [[0, 2, 1]] (l, s, Some [Some ''red'', Some ''red'', Some ''red''], c) =
     Inr (s, 2 / 3, Some [Some ''red'', Some ''red'', Some ''red''], Some [(Some ''red'', [[1]])])"
  by (simp add: pass_def get_centroids_def centroid_def select_members_def reassign_def
      point_at_def distance_def scores_add_def maxsize_def)

lemma example_loop:
  "k_means_loop (Suc (Suc f)) remdups [[0, 2, 1]]
      (maxsize, 0, Some [Some ''red'', Some ''red'', Some ''orange''], None) =
   Some (Inr (Some [Some ''red'', Some ''red'', Some ''red''], [(Some ''red'', [[1]])], 2 / 3))"
proof -
  have a: "\<not> converged (maxsize, 0, Some [Some ''red'', Some ''red'', Some ''orange''], None)"
    by (rule initial_state_not_converged)
  have b: "\<not> converged (0, 2 / 3, Some [Some ''red'', Some ''red'', Some ''red''],
          Some [(Some ''red'', [[1]]), (Some ''orange'', [[1]])])"
    by (simp add: converged_def)
  have c: "converged (2 / 3, 2 / 3, Some [Some ''red'', Some ''red'', Some ''red''],
          Some [(Some ''red'', [[1]])])"
    by (simp add: converged_def)
  show ?thesis
    by (simp add: k_means_loop_step [OF a] example_pass_1 k_means_loop_step [OF b] example_pass_2
        k_means_loop_stop [OF c] result_of_def)
qed







section \<open>Empty clusters\<close>

subsection \<open>Every label of the membership has a point\<close>

lemma select_members_first_nonempty:
  assumes "i \<in> set m" and "length m \<le> length x0"
  shows "map fst (filter (\<lambda>(v, label). label = i) (zip x0 m)) \<noteq> []"
proof -
  obtain j where j: "j < length m" "m ! j = i" using assms(1) by (auto simp: in_set_conv_nth)
  then have "(x0 ! j, i) \<in> set (zip x0 m)" using assms(2) by (auto simp: in_set_zip)
  then show ?thesis by (auto simp: filter_empty_conv)
qed

lemma centroid_select_members:
  assumes "i \<in> set m" and "length m \<le> length x0"
  shows "\<exists>c. centroid (select_members (x0 # xs) m i) = Inr c"
  using select_members_first_nonempty [OF assms]
  by (simp add: centroid_def select_members_def)

lemma map_err_total:
  "\<forall>a\<in>set as. \<exists>b. f a = Inr b \<Longrightarrow> \<exists>bs. map_err f as = Inr bs"
proof (induction as)
  case Nil
  then show ?case by simp
next
  case (Cons a as)
  obtain b where b: "f a = Inr b" using Cons.prems by auto
  obtain bs where "map_err f as = Inr bs" using Cons by auto
  then show ?case using b by simp
qed

lemma get_centroids_keys:
  "get_centroids set_iter x m = Inr cs \<Longrightarrow> map fst cs = set_iter m"
proof -
  have "map_err (\<lambda>i. case centroid (select_members x m i) of
                     Inl e \<Rightarrow> Inl e | Inr c \<Rightarrow> Inr (i, c)) as = Inr cs
        \<Longrightarrow> map fst cs = as" for as
    by (induction as arbitrary: cs) (auto split: sum.splits)
  then show "get_centroids set_iter x m = Inr cs \<Longrightarrow> map fst cs = set_iter m"
    by (simp add: get_centroids_def)
qed

lemma get_centroids_total:
  assumes "set (set_iter m) \<subseteq> set m" and "length m \<le> length x0"
  shows "\<exists>cs. get_centroids set_iter (x0 # xs) m = Inr cs"
proof -
  have "\<exists>b. (case centroid (select_members (x0 # xs) m i) of
                     Inl e \<Rightarrow> Inl e | Inr c \<Rightarrow> Inr (i, c)) = Inr b"
    if i: "i \<in> set (set_iter m)" for i
  proof -
    have "i \<in> set m" using i assms(1) by auto
    from centroid_select_members [OF this assms(2)]
    obtain c where "centroid (select_members (x0 # xs) m i) = Inr c" ..
    then show ?thesis by simp
  qed
  then have "\<forall>i\<in>set (set_iter m). \<exists>b. (case centroid (select_members (x0 # xs) m i) of
                     Inl e \<Rightarrow> Inl e | Inr c \<Rightarrow> Inr (i, c)) = Inr b" by blast
  then show ?thesis unfolding get_centroids_def by (rule map_err_total)
qed

subsection \<open>What a pass can raise, and the length of the membership\<close>

lemma nearest_error: "nearest x idx cs st = Inl e \<Longrightarrow> e = IndexError"
proof (induction cs arbitrary: st)
  case Nil
  then show ?case by (cases st) simp
next
  case (Cons a cs)
  obtain c vc where a: "a = (c, vc)" by (cases a)
  obtain m l where st: "st = (m, l)" by (cases st)
  show ?case
    using Cons.prems Cons.IH unfolding a st
    by (auto simp: point_at_def distance_def split: sum.splits if_splits)
qed

lemma reassign_loop_error: "reassign_loop x cs idxs st = Inl e \<Longrightarrow> e = IndexError"
proof (induction idxs arbitrary: st)
  case Nil
  then show ?case by (cases st) simp
next
  case (Cons idx idxs)
  obtain m sc where st: "st = (m, sc)" by (cases st)
  show ?case
  proof (cases "nearest x idx cs (maxsize, None)")
    case (Inl e')
    then have "e' = IndexError" by (rule nearest_error)
    then show ?thesis using Cons.prems Inl st by simp
  next
    case (Inr r)
    then show ?thesis using Cons.prems Cons.IH st by (cases r) simp
  qed
qed

lemma reassign_loop_length:
  "reassign_loop x cs idxs (m, sc) = Inr (m', sc') \<Longrightarrow> length m' = length m + length idxs"
proof (induction idxs arbitrary: m sc)
  case Nil
  then show ?case by simp
next
  case (Cons idx idxs)
  show ?case
  proof (cases "nearest x idx cs (maxsize, None)")
    case (Inl e')
    then show ?thesis using Cons.prems by simp
  next
    case (Inr r)
    obtain dm lb where r: "r = (dm, lb)" by (cases r)
    have "reassign_loop x cs idxs (m @ [lb], scores_add lb dm sc) = Inr (m', sc')"
      using Cons.prems Inr r by simp
    from Cons.IH [OF this] show ?thesis by simp
  qed
qed

lemma reassign_error:
  "reassign (x0 # xs) cs = Inl e \<Longrightarrow> 0 < length x0 \<Longrightarrow> e = IndexError"
  by (auto simp: reassign_def split: sum.splits prod.splits if_splits dest: reassign_loop_error)

lemma reassign_length:
  "reassign (x0 # xs) cs = Inr (m, cost) \<Longrightarrow> length m = length x0"
  by (auto simp: reassign_def split: sum.splits prod.splits if_splits dest: reassign_loop_length)

lemma pass_keeps_length:
  assumes "set (set_iter m) \<subseteq> set m" and "0 < length x0" and "length m = length x0"
  shows "(case pass set_iter (x0 # xs) (l, s, Some m, c) of
            Inl e \<Rightarrow> e = IndexError
          | Inr (l', s', m', c') \<Rightarrow> \<exists>m''. m' = Some m'' \<and> length m'' = length x0)"
proof -
  obtain cs where cs: "get_centroids set_iter (x0 # xs) m = Inr cs"
    using get_centroids_total [of set_iter m x0 xs] assms(1,3) by auto
  show ?thesis
  proof (cases "reassign (x0 # xs) cs")
    case (Inl e)
    then have "e = IndexError" using assms(2) by (rule reassign_error)
    then show ?thesis using cs Inl by (simp add: pass_def)
  next
    case (Inr r)
    obtain m' cost where r: "r = (m', cost)" by (cases r)
    have "length m' = length x0" using Inr r reassign_length by simp
    then show ?thesis using cs Inr r by (simp add: pass_def)
  qed
qed

lemma result_of_no_zero_division: "result_of st \<noteq> Inl ZeroDivisionError"
  by (cases st) (auto simp: result_of_def split: option.splits)

lemma k_means_loop_no_zero_division:
  assumes "set_iter_ok set_iter" and "0 < length x0" and "length m = length x0"
  shows "k_means_loop fuel set_iter (x0 # xs) (l, s, Some m, c) \<noteq> Some (Inl ZeroDivisionError)"
  using assms(3)
proof (induction fuel arbitrary: l s m c)
  case 0
  then show ?case
    by (cases "converged (l, s, Some m, c)")
      (simp_all add: k_means_loop_stop k_means_loop_out_of_fuel result_of_no_zero_division)
next
  case (Suc fuel)
  show ?case
  proof (cases "converged (l, s, Some m, c)")
    case True
    then show ?thesis by (simp add: k_means_loop_stop result_of_no_zero_division)
  next
    case False
    have sub: "set (set_iter m) \<subseteq> set m" using assms(1) by (simp add: set_iter_ok_def)
    note p = pass_keeps_length [of set_iter m x0 xs l s c, OF sub assms(2) Suc.prems]
    show ?thesis
    proof (cases "pass set_iter (x0 # xs) (l, s, Some m, c)")
      case (Inl e)
      then show ?thesis using p False by (simp add: k_means_loop_step)
    next
      case (Inr st')
      obtain l' s' m' c' where st': "st' = (l', s', m', c')" by (cases st')
      obtain m'' where "m' = Some m''" "length m'' = length x0" using p Inr st' by auto
      then show ?thesis using Suc.IH [of m'' l' s' c'] False Inr st' by (simp add: k_means_loop_step)
    qed
  qed
qed

lemma k_means_loop_none_membership:
  "k_means_loop fuel set_iter data (l, s, None, c) \<noteq> Some (Inl ZeroDivisionError)"
proof (cases "converged (l, s, None, c)")
  case True
  then show ?thesis by (simp add: k_means_loop_stop result_of_no_zero_division)
next
  case False
  then show ?thesis
    by (cases fuel) (simp_all add: k_means_loop_step k_means_loop_out_of_fuel pass_def)
qed

lemma k_means_no_zero_division:
  assumes "set_iter_ok set_iter"
  shows "k_means fuel set_iter rnd data k \<noteq> Some (Inl ZeroDivisionError)"
proof (cases "guess_clusters rnd data k")
  case (Inl e)
  then have "e = IndexError" by (rule guess_clusters_error)
  then show ?thesis using Inl by (simp add: k_means_def)
next
  case (Inr membership)
  show ?thesis
  proof (cases membership)
    case None
    then show ?thesis using Inr k_means_loop_none_membership by (simp add: k_means_def)
  next
    case (Some m)
    then obtain x0 xs where "data = x0 # xs" "length m = length x0" "0 < length x0"
      using Inr guess_clusters_some by blast
    then show ?thesis
      using Inr Some k_means_loop_no_zero_division [OF assms] by (simp add: k_means_def)
  qed
qed

subsection \<open>A run that loses a cluster\<close>

text \<open>
  Three points on a line, \<open>k = 2\<close>, initial guess red, red, orange: both centroids
  fall on 1, every point goes to the centroid met first, and the second pass computes
  a centroid for that one label only.
\<close>

lemma set_iter_ok_remdups: "set_iter_ok remdups"
  by (simp add: set_iter_ok_def)

lemma example_guess:
  "guess_clusters (draws [0, 0, 1]) [[0, 2, 1]] 2 =
     Inr (Some [Some ''red'', Some ''red'', Some ''orange''])"
  by (simp add: guess_clusters_def guess_label_def random_choice_range_def co_at_def co_def
      draws_def upt_conv_Cons)

lemma example_run:
  "k_means 2 remdups (draws [0, 0, 1]) [[0, 2, 1]] 2 =
     Some (Inr (Some [Some ''red'', Some ''red'', Some ''red''], [(Some ''red'', [[1]])], 2 / 3))"
proof -
  have "k_means 2 remdups (draws [0, 0, 1]) [[0, 2, 1]] 2 =
      k_means_loop 2 remdups [[0, 2, 1]]
        (maxsize, 0, Some [Some ''red'', Some ''red'', Some ''orange''], None)"
    by (simp only: k_means_def example_guess sum.case)
  also have "\<dots> = k_means_loop (Suc (Suc 0)) remdups [[0, 2, 1]]
        (maxsize, 0, Some [Some ''red'', Some ''red'', Some ''orange''], None)"
    by (simp only: numeral_2_eq_2)
  finally show ?thesis by (simp only: example_loop)
qed

text \<open>
  C7. In every run of \<open>k_means\<close> no ZeroDivisionError is raised: the membership always
  has one label per point, \<open>get_centroids\<close> calls \<open>centroid\<close> for the labels of
  \<open>set(membership)\<close> only, and each of them selects at least one point. The centroid
  mapping has exactly the labels present in the membership, so a label that lost all
  its points is absent from then on; the run on three points above asks for two
  clusters and returns one centroid.
\<close>

theorem k_means_centroid_of_present_labels:
  assumes "set_iter_ok set_iter"
  shows "k_means fuel set_iter rnd data k \<noteq> Some (Inl ZeroDivisionError) \<and>
         (length m = length x0 \<longrightarrow>
            list_all (\<lambda>i. hd (select_members (x0 # xs) m i) \<noteq> []) (set_iter m)) \<and>
         (get_centroids set_iter x m = Inr cs \<longrightarrow>
            set (map fst cs) = set m \<and> distinct (map fst cs)) \<and>
         k_means 2 remdups (draws [0, 0, 1]) [[0, 2, 1]] 2 =
           Some (Inr (Some [Some ''red'', Some ''red'', Some ''red''], [(Some ''red'', [[1]])], 2 / 3))"
proof -
  have ok: "distinct (set_iter m)" "set (set_iter m) = set m"
    using assms by (simp_all add: set_iter_ok_def)
  have a: "k_means fuel set_iter rnd data k \<noteq> Some (Inl ZeroDivisionError)"
    using assms by (rule k_means_no_zero_division)
  have b: "list_all (\<lambda>i. hd (select_members (x0 # xs) m i) \<noteq> []) (set_iter m)"
    if len: "length m = length x0"
  proof -
    have "hd (select_members (x0 # xs) m i) \<noteq> []" if i: "i \<in> set (set_iter m)" for i
    proof -
      have "i \<in> set m" using i ok(2) by simp
      then show ?thesis
        using select_members_first_nonempty [of i m x0] len by (simp add: select_members_def)
    qed
    then show ?thesis by (simp add: list_all_iff)
  qed
  have c: "set (map fst cs) = set m \<and> distinct (map fst cs)"
    if g: "get_centroids set_iter x m = Inr cs"
    using get_centroids_keys [OF g] ok by simp
  show ?thesis using a b c example_run by blast
qed

theorem k_means_centroid_of_present_labels_witness:
  "set_iter_ok remdups \<and>
   k_means 2 remdups (draws [0, 0, 1]) [[0, 2, 1]] 2 \<noteq> Some (Inl ZeroDivisionError) \<and>
   length [Some ''red'', Some ''red'', Some ''orange''] = length [0, 2, 1 :: real] \<and>
   list_all (\<lambda>i. hd (select_members ([0, 2, 1] # []) [Some ''red'', Some ''red'', Some ''orange''] i) \<noteq> [])
     (remdups [Some ''red'', Some ''red'', Some ''orange'']) \<and>
   get_centroids remdups [[0, 2, 1]] [Some ''red'', Some ''red'', Some ''orange''] =
     Inr [(Some ''red'', [[1]]), (Some ''orange'', [[1]])] \<and>
   set (map fst [(Some ''red'', [[1 :: real]]), (Some ''orange'', [[1]])]) =
     set [Some ''red'', Some ''red'', Some ''orange''] \<and>
   get_centroids remdups [[0, 2, 1]] [Some ''red'', Some ''red'', Some ''red''] =
     Inr [(Some ''red'', [[1]])]"
proof -
  let ?m = "[Some ''red'', Some ''red'', Some ''orange'']"
  let ?cs = "[(Some ''red'', [[1]]), (Some ''orange'', [[1]])] :: centroids"
  have len: "length ?m = length [0, 2, 1 :: real]" by simp
  have g: "get_centroids remdups [[0, 2, 1]] ?m = Inr ?cs"
    by (simp add: get_centroids_def centroid_def select_members_def)
  have g2: "get_centroids remdups [[0, 2, 1]] [Some ''red'', Some ''red'', Some ''red''] =
     Inr [(Some ''red'', [[1]])]"
    by (simp add: get_centroids_def centroid_def select_members_def)
  note t = k_means_centroid_of_present_labels [OF set_iter_ok_remdups,
      of 2 "draws [0, 0, 1]" "[[0, 2, 1]]" 2 ?m "[0, 2, 1]" "[]" "[[0, 2, 1]]" ?cs]
  have t1: "k_means 2 remdups (draws [0, 0, 1]) [[0, 2, 1]] 2 \<noteq> Some (Inl ZeroDivisionError)"
    using t by (rule conjunct1)
  have t2: "list_all (\<lambda>i. hd (select_members ([0, 2, 1] # []) ?m i) \<noteq> []) (remdups ?m)"
    using t len by blast
  have t3: "set (map fst ?cs) = set ?m"
    using t g by blast
  show ?thesis by (intro conjI set_iter_ok_remdups t1 len t2 g t3 g2)
qed

section \<open>Input errors\<close>

subsection \<open>A number of clusters that is not a positive int\<close>

lemma guess_label_dyn_int: "guess_label_dyn rnd (IntK k) = guess_label rnd k"
  by (rule ext) (simp add: guess_label_dyn_def)

lemma guess_clusters_dyn_int: "guess_clusters_dyn rnd x (IntK k) = guess_clusters rnd x k"
  unfolding guess_clusters_dyn_def guess_clusters_def guess_label_dyn_int ..

lemma k_means_dyn_int: "k_means_dyn fuel set_iter rnd data (IntK k) = k_means fuel set_iter rnd data k"
  unfolding k_means_dyn_def k_means_def guess_clusters_dyn_int ..

lemma map_err_upt_first:
  assumes "0 < n" and "f 0 = Inl e"
  shows "map_err f [0..<n] = Inl e"
proof -
  have "[0..<n] = 0 # [Suc 0..<n]" using assms(1) by (simp add: upt_conv_Cons)
  then show ?thesis using assms(2) by simp
qed

lemma guess_clusters_dyn_no_cluster:
  assumes "0 < length x0" and "k < 1"
  shows "guess_clusters_dyn rnd (x0 # xs) (IntK k) = Inl IndexError"
proof -
  have "guess_label rnd k 0 = Inl IndexError" using assms(2) by (rule guess_label_no_cluster)
  then have "map_err (guess_label rnd k) [0..<length x0] = Inl IndexError"
    using assms(1) by (intro map_err_upt_first)
  then show ?thesis using assms(1) by (simp add: guess_clusters_dyn_int guess_clusters_def)
qed

lemma guess_clusters_dyn_non_int:
  assumes "0 < length x0"
  shows "guess_clusters_dyn rnd (x0 # xs) NonIntK = Inl TypeError"
proof -
  have "guess_label_dyn rnd NonIntK 0 = Inl TypeError" by (simp add: guess_label_dyn_def)
  then have "map_err (guess_label_dyn rnd NonIntK) [0..<length x0] = Inl TypeError"
    using assms by (intro map_err_upt_first)
  then show ?thesis using assms by (simp add: guess_clusters_dyn_def)
qed

lemma guess_clusters_dyn_membership:
  "guess_clusters_dyn rnd (x0 # xs) kv = Inr (Some m) \<Longrightarrow> length m = length x0"
  by (auto simp: guess_clusters_dyn_def split: if_splits sum.splits dest: map_err_length)

lemma guess_clusters_dyn_first_list:
  "length y0 = length x0 \<Longrightarrow> guess_clusters_dyn rnd (y0 # ys) kv = guess_clusters_dyn rnd (x0 # xs) kv"
  by (simp add: guess_clusters_dyn_def)


subsection \<open>Coordinate lists longer than the first\<close>

lemma zip_take_left: "length ys \<le> n \<Longrightarrow> zip (take n xs) ys = zip xs ys"
proof -
  assume len: "length ys \<le> n"
  have "zip (take n xs) ys = zip (take n xs) (take n ys)" using len by simp
  also have "\<dots> = take n (zip xs ys)" by (simp add: take_zip)
  also have "\<dots> = zip xs ys" using len by simp
  finally show ?thesis .
qed

lemma select_members_take:
  assumes "length m \<le> n"
  shows "select_members (map (take n) x) m i = select_members x m i"
  using assms by (simp add: select_members_def zip_take_left comp_def)

lemma get_centroids_take:
  assumes "length m \<le> n"
  shows "get_centroids set_iter (map (take n) x) m = get_centroids set_iter x m"
  unfolding get_centroids_def select_members_take [OF assms] ..

lemma point_at_take:
  assumes "list_all (\<lambda>t. n \<le> length t) x" and "idx < n"
  shows "point_at (map (take n) x) idx = point_at x idx"
proof -
  have a: "list_all (\<lambda>t. idx < length t) x" using assms by (auto simp: list_all_iff)
  have b: "list_all (\<lambda>t. idx < length t) (map (take n) x)"
    using assms by (auto simp: list_all_iff)
  have "map (\<lambda>t. [t ! idx]) (map (take n) x) = map (\<lambda>t. [t ! idx]) x"
    using assms(2) by simp
  then show ?thesis using a b by (simp add: point_at_def)
qed

lemma nearest_take:
  assumes "list_all (\<lambda>t. n \<le> length t) x" and "idx < n"
  shows "nearest (map (take n) x) idx cs st = nearest x idx cs st"
proof (induction cs arbitrary: st)
  case Nil
  then show ?case by (cases st) simp
next
  case (Cons a cs)
  obtain c vc where a: "a = (c, vc)" by (cases a)
  obtain md l where st: "st = (md, l)" by (cases st)
  show ?case
    unfolding a st
    by (simp add: point_at_take [OF assms] Cons.IH split: sum.splits)
qed

lemma reassign_loop_take:
  assumes "list_all (\<lambda>t. n \<le> length t) x" and "\<forall>idx\<in>set idxs. idx < n"
  shows "reassign_loop (map (take n) x) cs idxs st = reassign_loop x cs idxs st"
  using assms(2)
proof (induction idxs arbitrary: st)
  case Nil
  then show ?case by (cases st) simp
next
  case (Cons idx idxs)
  obtain m sc where st: "st = (m, sc)" by (cases st)
  have idx: "idx < n" using Cons.prems by simp
  have rest: "\<forall>i\<in>set idxs. i < n" using Cons.prems by simp
  show ?case
    unfolding st
    by (simp add: nearest_take [OF assms(1) idx] Cons.IH [OF rest] split: sum.splits prod.splits)
qed

lemma reassign_take:
  assumes "list_all (\<lambda>t. length x0 \<le> length t) xs"
  shows "reassign (map (take (length x0)) (x0 # xs)) cs = reassign (x0 # xs) cs"
proof -
  have all: "list_all (\<lambda>t. length x0 \<le> length t) (x0 # xs)" using assms by simp
  have "reassign_loop (map (take (length x0)) (x0 # xs)) cs [0..<length x0] ([], []) =
        reassign_loop (x0 # xs) cs [0..<length x0] ([], [])"
    by (rule reassign_loop_take [OF all]) simp
  then show ?thesis by (simp add: reassign_def)
qed

lemma pass_take:
  assumes "list_all (\<lambda>t. length x0 \<le> length t) xs" and "length m = length x0"
  shows "pass set_iter (map (take (length x0)) (x0 # xs)) (l, s, Some m, c) =
         pass set_iter (x0 # xs) (l, s, Some m, c)"
proof -
  have "get_centroids set_iter (map (take (length x0)) (x0 # xs)) m =
        get_centroids set_iter (x0 # xs) m"
    using assms(2) by (intro get_centroids_take) simp
  then show ?thesis
    unfolding pass_def prod.case option.case reassign_take [OF assms(1)] by simp
qed


lemma pass_none_membership: "pass set_iter data (l, s, None, c) = Inl TypeError"
  by (simp add: pass_def)

lemma pass_membership_length:
  assumes "pass set_iter (x0 # xs) (l, s, Some m, c) = Inr st'"
  shows "\<exists>l' s' m' c'. st' = (l', s', Some m', c') \<and> length m' = length x0"
  using assms
  by (auto simp: pass_def split: sum.splits prod.splits dest: reassign_length)

lemma k_means_loop_take:
  assumes "list_all (\<lambda>t. length x0 \<le> length t) xs"
    and "membership = None \<or> (\<exists>m. membership = Some m \<and> length m = length x0)"
  shows "k_means_loop fuel set_iter (map (take (length x0)) (x0 # xs)) (l, s, membership, c) =
         k_means_loop fuel set_iter (x0 # xs) (l, s, membership, c)"
  using assms(2)
proof (induction fuel arbitrary: l s membership c)
  case 0
  then show ?case
    by (cases "converged (l, s, membership, c)")
      (simp_all add: k_means_loop_stop k_means_loop_out_of_fuel)
next
  case (Suc fuel)
  let ?x' = "map (take (length x0)) (x0 # xs)"
  show ?case
  proof (cases "converged (l, s, membership, c)")
    case True
    then show ?thesis by (simp add: k_means_loop_stop)
  next
    case False
    show ?thesis
    proof (cases membership)
      case None
      then show ?thesis using False by (simp add: k_means_loop_step pass_none_membership)
    next
      case (Some m)
      then have len: "length m = length x0" using Suc.prems by simp
      have same: "pass set_iter ?x' (l, s, Some m, c) = pass set_iter (x0 # xs) (l, s, Some m, c)"
        using pass_take [OF assms(1) len] .
      show ?thesis
      proof (cases "pass set_iter (x0 # xs) (l, s, Some m, c)")
        case (Inl e)
        then show ?thesis using False Some same by (simp add: k_means_loop_step)
      next
        case (Inr st')
        from pass_membership_length [OF Inr]
        obtain l' s' m' c' where st': "st' = (l', s', Some m', c')" "length m' = length x0"
          by blast
        have "k_means_loop fuel set_iter ?x' (l', s', Some m', c') =
              k_means_loop fuel set_iter (x0 # xs) (l', s', Some m', c')"
          using Suc.IH [of "Some m'" l' s' c'] st'(2) by simp
        then show ?thesis using False Some same Inr st'(1) by (simp add: k_means_loop_step)
      qed
    qed
  qed
qed

lemma k_means_dyn_take:
  assumes "list_all (\<lambda>t. length x0 \<le> length t) xs"
  shows "k_means_dyn fuel set_iter rnd (map (take (length x0)) (x0 # xs)) kv =
         k_means_dyn fuel set_iter rnd (x0 # xs) kv"
proof -
  let ?x' = "map (take (length x0)) (x0 # xs)"
  have g: "guess_clusters_dyn rnd ?x' kv = guess_clusters_dyn rnd (x0 # xs) kv"
    by (simp add: guess_clusters_dyn_first_list)
  show ?thesis
  proof (cases "guess_clusters_dyn rnd (x0 # xs) kv")
    case (Inl e)
    then show ?thesis using g by (simp add: k_means_dyn_def)
  next
    case (Inr membership)
    have "membership = None \<or> (\<exists>m. membership = Some m \<and> length m = length x0)"
      using Inr guess_clusters_dyn_membership by (cases membership) auto
    from k_means_loop_take [OF assms this] show ?thesis
      using g Inr by (simp add: k_means_dyn_def)
  qed
qed

subsection \<open>A coordinate list shorter than the first\<close>

lemma guess_label_in_range:
  assumes "1 \<le> k" and "k \<le> 8"
  shows "guess_label rnd k i = Inr (Some (co ! (rnd i mod nat k)))"
proof -
  have "rnd i mod nat k < nat k" using assms(1) by simp
  then have "rnd i mod nat k < 8" using assms(2) by linarith
  then show ?thesis
    using assms(1) by (simp add: guess_label_def random_choice_range_def co_at_def co_def)
qed

lemma guess_clusters_dyn_in_range:
  assumes "0 < length x0" and "1 \<le> k" and "k \<le> 8"
  shows "\<exists>m. guess_clusters_dyn rnd (x0 # xs) (IntK k) = Inr (Some m) \<and> length m = length x0"
proof -
  have "map_err (guess_label rnd k) [0..<length x0] =
      Inr (map (\<lambda>i. Some (co ! (rnd i mod nat k))) [0..<length x0])"
    by (rule map_err_all) (simp add: guess_label_in_range [OF assms(2,3)])
  then show ?thesis
    using assms(1) by (simp add: guess_clusters_dyn_int guess_clusters_def)
qed

lemma reassign_loop_fails:
  assumes "idx \<in> set idxs" and "nearest x idx cs (maxsize, None) = Inl e0"
  shows "\<exists>e. reassign_loop x cs idxs st = Inl e"
  using assms(1)
proof (induction idxs arbitrary: st)
  case Nil
  then show ?case by simp
next
  case (Cons i idxs)
  obtain m sc where st: "st = (m, sc)" by (cases st)
  show ?case
  proof (cases "nearest x i cs (maxsize, None)")
    case (Inl e)
    then show ?thesis using st by simp
  next
    case (Inr r)
    obtain dm lb where r: "r = (dm, lb)" by (cases r)
    have "i \<noteq> idx" using Inr assms(2) by auto
    then have "idx \<in> set idxs" using Cons.prems by simp
    from Cons.IH [OF this] obtain e where
      "reassign_loop x cs idxs (m @ [lb], scores_add lb dm sc) = Inl e" by blast
    then show ?thesis using Inr r st by simp
  qed
qed

lemma reassign_short_list:
  assumes "0 < length x0" and "list_ex (\<lambda>t. length t < length x0) xs" and "cs \<noteq> []"
  shows "\<exists>e. reassign (x0 # xs) cs = Inl e"
proof -
  obtain t where t: "t \<in> set xs" "length t < length x0"
    using assms(2) unfolding list_ex_iff by blast
  have "\<not> list_all (\<lambda>u. length t < length u) (x0 # xs)" using t(1) by (auto simp: list_all_iff)
  then have p: "point_at (x0 # xs) (length t) = Inl IndexError" by (simp add: point_at_def)
  obtain c vc rest where cs: "cs = (c, vc) # rest" using assms(3) by (cases cs) auto
  have n: "nearest (x0 # xs) (length t) cs (maxsize, None) = Inl IndexError"
    unfolding cs using p by simp
  have "length t \<in> set [0..<length x0]" using t(2) by simp
  from reassign_loop_fails [OF this n]
  obtain e where "reassign_loop (x0 # xs) cs [0..<length x0] ([], []) = Inl e" by blast
  then show ?thesis by (simp add: reassign_def)
qed

lemma k_means_dyn_short_list:
  assumes "set_iter_ok set_iter" and "0 < length x0"
    and "list_ex (\<lambda>t. length t < length x0) xs" and "1 \<le> k" and "k \<le> 8"
  shows "k_means_dyn 0 set_iter rnd (x0 # xs) (IntK k) = None \<and>
         (\<exists>e. k_means_dyn (Suc fuel) set_iter rnd (x0 # xs) (IntK k) = Some (Inl e))"
proof -
  obtain m where m: "guess_clusters_dyn rnd (x0 # xs) (IntK k) = Inr (Some m)"
      "length m = length x0"
    using guess_clusters_dyn_in_range [OF assms(2,4,5)] by blast
  have ok: "distinct (set_iter m)" "set (set_iter m) = set m"
    using assms(1) by (simp_all add: set_iter_ok_def)
  have nc: "\<not> converged (maxsize, 0, Some m, None)" by (rule initial_state_not_converged)
  have a: "k_means_dyn 0 set_iter rnd (x0 # xs) (IntK k) = None"
    using m(1) nc by (simp add: k_means_dyn_def k_means_loop_out_of_fuel)
  obtain cs where cs: "get_centroids set_iter (x0 # xs) m = Inr cs"
    using get_centroids_total [of set_iter m x0 xs] ok(2) m(2) by auto
  have "m \<noteq> []" using m(2) assms(2) by auto
  then have "set_iter m \<noteq> []" using ok(2) by (metis set_empty)
  then have "cs \<noteq> []" using get_centroids_keys [OF cs] by auto
  from reassign_short_list [OF assms(2,3) this]
  obtain e where "reassign (x0 # xs) cs = Inl e" by blast
  then have "pass set_iter (x0 # xs) (maxsize, 0, Some m, None) = Inl e"
    using cs by (simp add: pass_def)
  then have "k_means_dyn (Suc fuel) set_iter rnd (x0 # xs) (IntK k) = Some (Inl e)"
    using m(1) nc by (simp add: k_means_dyn_def k_means_loop_step)
  then show ?thesis using a by blast
qed

subsection \<open>No check before the loop\<close>

lemma zip_take_lengths: "zip (take (length ys) xs) (take (length xs) ys) = zip xs ys"
proof (induction xs arbitrary: ys)
  case Nil
  then show ?case by simp
next
  case (Cons x xs)
  then show ?case by (cases ys) simp_all
qed

lemma distance_shared_dimensions:
  "distance p1 p2 = distance (take (length p2) p1) (take (length p1) p2)"
  by (simp add: distance_def zip_take_lengths)


text \<open>
  C9 (as amended). \<open>k_means_dyn\<close> on an int \<open>k\<close> is \<open>k_means\<close>. On a data set whose
  first coordinate list holds at least one value, a run with \<open>k < 1\<close> or with a \<open>k\<close> that is not an int is rejected before any pass:
  the initial guess raises IndexError, respectively TypeError, whatever the fuel (also
  none). A point whose coordinate count does not match is not rejected before the
  loop. Where no coordinate list is shorter than the first, the run is the run on the
  lists cut to the length of the first: the surplus values are ignored. Where some
  list is shorter than the first (and \<open>1 \<le> k \<le> 8\<close>), nothing is raised before the
  loop, and the first pass ends in an exception. And \<open>distance\<close> computes over the
  leading entries that its two arguments share.
\<close>

theorem k_means_unvalidated_input:
  "k_means_dyn fuel set_iter rnd data (IntK k) = k_means fuel set_iter rnd data k \<and>
   (0 < length x0 \<and> k < 1 \<longrightarrow>
      guess_clusters_dyn rnd (x0 # xs) (IntK k) = Inl IndexError \<and>
      k_means_dyn fuel set_iter rnd (x0 # xs) (IntK k) = Some (Inl IndexError)) \<and>
   (0 < length x0 \<longrightarrow>
      guess_clusters_dyn rnd (x0 # xs) NonIntK = Inl TypeError \<and>
      k_means_dyn fuel set_iter rnd (x0 # xs) NonIntK = Some (Inl TypeError)) \<and>
   (list_all (\<lambda>t. length x0 \<le> length t) xs \<longrightarrow>
      k_means_dyn fuel set_iter rnd (x0 # xs) kv =
        k_means_dyn fuel set_iter rnd (map (take (length x0)) (x0 # xs)) kv) \<and>
   (set_iter_ok set_iter \<and> 0 < length x0 \<and> list_ex (\<lambda>t. length t < length x0) xs \<and>
    1 \<le> k \<and> k \<le> 8 \<longrightarrow>
      k_means_dyn 0 set_iter rnd (x0 # xs) (IntK k) = None \<and>
      (\<exists>e. k_means_dyn (Suc fuel) set_iter rnd (x0 # xs) (IntK k) = Some (Inl e))) \<and>
   distance p1 p2 = distance (take (length p2) p1) (take (length p1) p2)"
proof -
  have a: "guess_clusters_dyn rnd (x0 # xs) (IntK k) = Inl IndexError \<and>
      k_means_dyn fuel set_iter rnd (x0 # xs) (IntK k) = Some (Inl IndexError)"
    if h: "0 < length x0 \<and> k < 1"
  proof -
    have "guess_clusters_dyn rnd (x0 # xs) (IntK k) = Inl IndexError"
      using h by (intro guess_clusters_dyn_no_cluster) simp_all
    then show ?thesis by (simp add: k_means_dyn_def)
  qed
  have b: "guess_clusters_dyn rnd (x0 # xs) NonIntK = Inl TypeError \<and>
      k_means_dyn fuel set_iter rnd (x0 # xs) NonIntK = Some (Inl TypeError)"
    if h: "0 < length x0"
  proof -
    have "guess_clusters_dyn rnd (x0 # xs) NonIntK = Inl TypeError"
      using h by (rule guess_clusters_dyn_non_int)
    then show ?thesis by (simp add: k_means_dyn_def)
  qed
  have c: "k_means_dyn fuel set_iter rnd (x0 # xs) kv =
        k_means_dyn fuel set_iter rnd (map (take (length x0)) (x0 # xs)) kv"
    if h: "list_all (\<lambda>t. length x0 \<le> length t) xs"
    using k_means_dyn_take [OF h, of fuel set_iter rnd kv] by simp
  have d: "k_means_dyn 0 set_iter rnd (x0 # xs) (IntK k) = None \<and>
      (\<exists>e. k_means_dyn (Suc fuel) set_iter rnd (x0 # xs) (IntK k) = Some (Inl e))"
    if h: "set_iter_ok set_iter \<and> 0 < length x0 \<and> list_ex (\<lambda>t. length t < length x0) xs \<and>
      1 \<le> k \<and> k \<le> 8"
    using h by (intro k_means_dyn_short_list) simp_all
  show ?thesis
    by (intro conjI impI distance_shared_dimensions k_means_dyn_int) (use a b c d in blast)+
qed

theorem k_means_unvalidated_input_witness:
  "0 < length [1, 2 :: real] \<and> (0 :: int) < 1 \<and>
   k_means_dyn 0 remdups (draws [5, 7]) ([1, 2] # []) (IntK 0) = Some (Inl IndexError) \<and>
   k_means_dyn 0 remdups (draws [5, 7]) ([1, 2] # []) NonIntK = Some (Inl TypeError) \<and>
   list_all (\<lambda>t. length [1 :: real] \<le> length t) [[3, 4 :: real]] \<and>
   k_means_dyn 1 remdups (draws [0]) ([1] # [[3, 4]]) (IntK 1) =
     k_means_dyn 1 remdups (draws [0]) [[1], [3]] (IntK 1) \<and>
   set_iter_ok remdups \<and> list_ex (\<lambda>t. length t < length [0, 0 :: real]) [[0 :: real]] \<and>
   k_means_dyn 0 remdups (draws [0, 0]) ([0, 0] # [[0]]) (IntK 1) = None \<and>
   (\<exists>e. k_means_dyn (Suc 0) remdups (draws [0, 0]) ([0, 0] # [[0]]) (IntK 1) = Some (Inl e)) \<and>
   distance [[0], [0]] [[3]] = distance [[0]] [[3]]"
proof -
  have h1: "0 < length [1, 2 :: real]" by simp
  have h2: "(0 :: int) < 1" by simp
  note ta = k_means_unvalidated_input [where ?x0.0 = "[1, 2]" and xs = "[]" and k = 0
      and fuel = 0 and set_iter = remdups and rnd = "draws [5, 7]"]
  have w1: "k_means_dyn 0 remdups (draws [5, 7]) ([1, 2] # []) (IntK 0) = Some (Inl IndexError)"
    using ta h1 h2 by blast
  have w2: "k_means_dyn 0 remdups (draws [5, 7]) ([1, 2] # []) NonIntK = Some (Inl TypeError)"
    using ta h1 by blast
  have h3: "list_all (\<lambda>t. length [1 :: real] \<le> length t) [[3, 4 :: real]]" by simp
  note tc = k_means_unvalidated_input [where ?x0.0 = "[1]" and xs = "[[3, 4]]" and kv = "IntK 1"
      and fuel = 1 and set_iter = remdups and rnd = "draws [0]"]
  have "k_means_dyn 1 remdups (draws [0]) ([1] # [[3, 4]]) (IntK 1) =
     k_means_dyn 1 remdups (draws [0]) (map (take (length [1 :: real])) ([1] # [[3, 4]])) (IntK 1)"
    using tc h3 by blast
  then have w3: "k_means_dyn 1 remdups (draws [0]) ([1] # [[3, 4]]) (IntK 1) =
     k_means_dyn 1 remdups (draws [0]) [[1], [3]] (IntK 1)"
    by simp
  have h4: "list_ex (\<lambda>t. length t < length [0, 0 :: real]) [[0 :: real]]" by simp
  note td = k_means_unvalidated_input [where ?x0.0 = "[0, 0]" and xs = "[[0]]" and k = 1
      and fuel = 0 and set_iter = remdups and rnd = "draws [0, 0]"]
  have h5: "0 < length [0, 0 :: real]" "(1 :: int) \<le> 1" "(1 :: int) \<le> 8" by simp_all
  have w4: "k_means_dyn 0 remdups (draws [0, 0]) ([0, 0] # [[0]]) (IntK 1) = None"
    using td set_iter_ok_remdups h4 h5 by blast
  have w5: "\<exists>e. k_means_dyn (Suc 0) remdups (draws [0, 0]) ([0, 0] # [[0]]) (IntK 1) = Some (Inl e)"
    using td set_iter_ok_remdups h4 h5 by blast
  have "distance [[0], [0]] [[3]] =
      distance (take (length [[3 :: real]]) [[0], [0]]) (take (length [[0 :: real], [0]]) [[3]])"
    using k_means_unvalidated_input [where ?p1.0 = "[[0], [0]]" and ?p2.0 = "[[3]]"] by blast
  then have w6: "distance [[0], [0]] [[3]] = distance [[0]] [[3]]" by simp
  show ?thesis by (intro conjI h1 h2 w1 w2 h3 w3 set_iter_ok_remdups h4 w4 w5 w6)
qed

text \<open>
  C9 as stated fails: the distance of a two-dimensional and a one-dimensional vector is
  computed, not rejected; a data set whose second list has one value more than its
  first is clustered to a result; and for one whose second list has one value less,
  nothing is raised before the loop and the first pass raises IndexError.
\<close>

theorem k_means_no_validation_counterexample:
  "distance [[0], [0]] [[3]] = Inr 3 \<and>
   k_means 1 remdups (draws [0]) [[1], [3, 4]] 1 =
     Some (Inr (Some [Some ''red''], [(Some ''red'', [[1], [3]])], 0)) \<and>
   k_means 0 remdups (draws [0, 0]) [[0, 0], [0]] 1 = None \<and>
   k_means 1 remdups (draws [0, 0]) [[0, 0], [0]] 1 = Some (Inl IndexError)"
  by (simp add: k_means_def guess_clusters_def guess_label_def random_choice_range_def co_at_def
      co_def draws_def converged_def maxsize_def pass_def get_centroids_def centroid_def
      select_members_def reassign_def point_at_def distance_def scores_add_def result_of_def
      k_means_loop.simps upt_conv_Cons)

section \<open>Distances at or beyond the sentinel\<close>

text \<open>
  \<open>reassign\<close> starts every minimum at \<open>sys.maxsize\<close> and accepts a centroid only where
  \<open>dist < min_d\<close>. The three runs below have their points at \<open>sys.maxsize\<close> or more from
  every centroid. Their statements leave the returned cost open and bound it only, so
  that they do not depend on how the cost is rounded.
\<close>

text \<open>
  C1. One point at 0 and the one centroid at 1e19, which \<open>distance\<close> puts at
  \<open>sys.maxsize\<close> or more from the point: \<open>reassign\<close> labels the point \<open>None\<close> and
  returns a cost below that distance, which for one point and one centroid is the
  mean of the minimum distances.
\<close>

theorem reassign_cost_beyond_sentinel:
  "\<exists>dv cost. distance [[10 ^ 19]] [[0]] = Inr dv \<and> maxsize \<le> dv \<and>
     reassign [[0]] [(Some ''red'', [[10 ^ 19]])] = Inr ([None], cost) \<and> cost < dv"
  by (simp add: reassign_def point_at_def distance_def maxsize_def scores_add_def)

text \<open>
  C6. One point at 0 and two centroids, \<open>red\<close> met first and \<open>orange\<close>, both at 1e19 and
  so at the same distance from the point: \<open>reassign\<close> gives the point the label
  \<open>None\<close>, not \<open>red\<close>.
\<close>

theorem reassign_tie_beyond_sentinel:
  "\<exists>dv cost. distance [[10 ^ 19]] [[0]] = Inr dv \<and> maxsize \<le> dv \<and>
     reassign [[0]] [(Some ''red'', [[10 ^ 19]]), (Some ''orange'', [[10 ^ 19]])] =
       Inr ([None], cost)"
  by (simp add: reassign_def point_at_def distance_def maxsize_def scores_add_def)

text \<open>
  C8. Two points at 0 and 4e19 and \<open>k = 1\<close>: the global centroid is 2e19, the run ends
  after two passes with both points labelled \<open>None\<close>, that centroid under the label
  \<open>None\<close>, and a cost below the mean of the two distances to it.
\<close>

theorem k_means_single_cluster_beyond_sentinel:
  "\<exists>d0 d1 cost. centroid [[0, 4 * 10 ^ 19]] = Inr [[2 * 10 ^ 19]] \<and>
     distance [[2 * 10 ^ 19]] [[0]] = Inr d0 \<and>
     distance [[2 * 10 ^ 19]] [[4 * 10 ^ 19]] = Inr d1 \<and>
     k_means 2 remdups (draws [0, 0]) [[0, 4 * 10 ^ 19]] 1 =
       Some (Inr (Some [None, None], [(None, [[2 * 10 ^ 19]])], cost)) \<and>
     cost < (d0 + d1) / 2"
  by (simp add: k_means_def guess_clusters_def guess_label_def
      random_choice_range_def co_at_def co_def draws_def converged_def maxsize_def pass_def
      get_centroids_def centroid_def select_members_def reassign_def point_at_def distance_def
      scores_add_def result_of_def k_means_loop.simps numeral_2_eq_2)

end
